theory Spec2Isabelle
  imports Main "HOL-Library.Word"
begin

unbundle bit_operations_syntax

section \<open>The CHIP-8 machine state of chip.c\<close>

text \<open>
  The global \<^verbatim>\<open>chip8\<close> struct. The C arrays are indexed without any check, so each
  array is a store from indices to values: \<^verbatim>\<open>ram\<close> has 0x1000 entries, \<^verbatim>\<open>v\<close> and \<^verbatim>\<open>stack\<close>
  have 0x10, \<^verbatim>\<open>display\<close> has 0x20 rows of 0x40 cells. An index outside these ranges
  denotes a location outside the C array; the theorems below say where the code stays
  inside and where it does not.
\<close>

type_synonym opcode_t = "16 word"

record chip8 =
  pc :: "16 word"
  ram :: "nat \<Rightarrow> 8 word"
  v :: "nat \<Rightarrow> 8 word"
  delay :: "8 word"
  sound :: "8 word"
  I :: "16 word"
  sp :: "8 word"
  stack :: "nat \<Rightarrow> 16 word"
  display :: "nat \<Rightarrow> nat \<Rightarrow> 32 word"

definition CHIP8_RAM_CAPACITY :: nat where "CHIP8_RAM_CAPACITY = 0x1000"
definition CHIP8_RAM_ENTRYPOINT :: nat where "CHIP8_RAM_ENTRYPOINT = 0x200"
definition CHIP8_DISPLAY_WIDTH :: nat where "CHIP8_DISPLAY_WIDTH = 0x40"
definition CHIP8_DISPLAY_HEIGHT :: nat where "CHIP8_DISPLAY_HEIGHT = 0x20"

definition chip8_numbers :: "8 word list" where
  "chip8_numbers =
    [0xF0, 0x90, 0x90, 0x90, 0xF0,
     0x20, 0x60, 0x20, 0x20, 0x70,
     0xF0, 0x10, 0xF0, 0x80, 0xF0,
     0xF0, 0x10, 0xF0, 0x10, 0xF0,
     0x90, 0x90, 0xF0, 0x10, 0x10,
     0xF0, 0x80, 0xF0, 0x10, 0xF0,
     0xF0, 0x80, 0xF0, 0x90, 0xF0,
     0xF0, 0x10, 0x20, 0x40, 0x40,
     0xF0, 0x90, 0xF0, 0x90, 0xF0,
     0xF0, 0x90, 0xF0, 0x10, 0xF0,
     0xF0, 0x90, 0xF0, 0x90, 0x90,
     0xE0, 0x90, 0xE0, 0x90, 0xE0,
     0xF0, 0x80, 0x80, 0x80, 0xF0,
     0xE0, 0x90, 0x90, 0x90, 0xE0,
     0xF0, 0x80, 0xF0, 0x80, 0xF0,
     0xF0, 0x80, 0xF0, 0x80, 0x80]"

text \<open>The state after \<^verbatim>\<open>memset(&chip8, 0, sizeof(chip8))\<close>.\<close>

definition chip8_zero :: chip8 where
  "chip8_zero =
    \<lparr>pc = 0, ram = (\<lambda>_. 0), v = (\<lambda>_. 0), delay = 0, sound = 0, I = 0, sp = 0,
     stack = (\<lambda>_. 0), display = (\<lambda>_ _. 0)\<rparr>"

section \<open>Fetch\<close>

text \<open>
  \<^verbatim>\<open>(opcode_t) (chip8.ram[chip8.pc] << 8 | chip8.ram[chip8.pc + 1])\<close>: both bytes are
  promoted to int, so \<^verbatim>\<open>pc + 1\<close> does not wrap; the cast keeps the low 16 bits.
\<close>

definition chip8_current_opcode :: "chip8 \<Rightarrow> opcode_t" where
  "chip8_current_opcode s =
     push_bit 8 (ucast (ram s (unat (pc s)))) OR ucast (ram s (unat (pc s) + 1))"

section \<open>Sprite drawing\<close>

text \<open>
  The body of the inner loop of \<^verbatim>\<open>chip8_sprite_draw\<close> for row \<open>i\<close> and column \<open>j\<close>.
  \<^verbatim>\<open>cell\<close> and \<^verbatim>\<open>pixel\<close> are C ints; xor is bitwise and the product with the unsigned
  constant \<^verbatim>\<open>0xffffffff\<close> is taken modulo \<open>2^32\<close>, so both are 32-bit words here.
\<close>

definition sprite_pixel :: "nat \<Rightarrow> nat \<Rightarrow> nat \<Rightarrow> 32 word \<Rightarrow> nat \<Rightarrow> chip8 \<Rightarrow> chip8" where
  "sprite_pixel x y i cell j s =
     (if cell AND drop_bit j 0x80 \<noteq> 0 then
        let pixel = display s (y + i) (x + j);
            s1 = (if display s (y + i) (x + j) \<noteq> 0 then s\<lparr>v := (v s)(0xf := 1)\<rparr> else s);
            pixel' = pixel XOR cell
        in s1\<lparr>display := (display s1)(y + i := (display s1 (y + i))(x + j := pixel' * 0xffffffff))\<rparr>
      else s)"

definition sprite_row :: "nat \<Rightarrow> nat \<Rightarrow> nat \<Rightarrow> chip8 \<Rightarrow> chip8" where
  "sprite_row x y i s =
     (let cell = ucast (ram s (unat (I s) + i))
      in fold (sprite_pixel x y i cell) [0..<8] s)"

definition chip8_sprite_draw :: "nat \<Rightarrow> nat \<Rightarrow> nat \<Rightarrow> chip8 \<Rightarrow> chip8" where
  "chip8_sprite_draw x y n s = fold (sprite_row x y) [0..<n] (s\<lparr>v := (v s)(0xf := 0)\<rparr>)"

section \<open>The instruction cycle\<close>

text \<open>
  \<^verbatim>\<open>unimplemented_instruction\<close> prints the opcode and exits the process: the only way
  the cycle fails.
\<close>

datatype exec_error = UnimplementedOpcode opcode_t

definition op_x :: "opcode_t \<Rightarrow> nat" where
  "op_x opcode = unat (drop_bit 8 (opcode AND 0x0f00))"

definition op_y :: "opcode_t \<Rightarrow> nat" where
  "op_y opcode = unat (drop_bit 4 (opcode AND 0x00f0))"

text \<open>
  The key scan of \<^verbatim>\<open>Fx0A\<close>: \<^verbatim>\<open>for (i = 0; i < 0x10; i++) if (keys[i]) { ...; break; }\<close>,
  started at \<open>i\<close>; the result is the index at which the loop breaks, if it does.
\<close>

function key_scan :: "(nat \<Rightarrow> int) \<Rightarrow> nat \<Rightarrow> nat option" where
  "key_scan keys i =
     (if i < 0x10 then (if keys i \<noteq> 0 then Some i else key_scan keys (i + 1)) else None)"
  by pat_completeness auto
termination
  by (relation "measure (\<lambda>(keys, i). 0x10 - i)") auto

declare key_scan.simps [simp del]

definition clear_display :: "(nat \<Rightarrow> nat \<Rightarrow> 32 word) \<Rightarrow> nat \<Rightarrow> nat \<Rightarrow> 32 word" where
  "clear_display d =
     fold (\<lambda>i d1. fold (\<lambda>j d2. d2(i := (d2 i)(j := 0))) [0..<CHIP8_DISPLAY_WIDTH] d1)
       [0..<CHIP8_DISPLAY_HEIGHT] d"

text \<open>
  One call of \<^verbatim>\<open>chip8_execute_instruction\<close>. \<open>keys\<close> is the global key array as the
  event loop left it, \<open>rnd\<close> the value \<^verbatim>\<open>random()\<close> returns in this cycle. The inner
  switches have no default label: an opcode that matches no case falls out of the
  switch with the state as it was.
\<close>

definition chip8_execute_instruction ::
    "(nat \<Rightarrow> int) \<Rightarrow> nat \<Rightarrow> chip8 \<Rightarrow> exec_error + chip8" where
  "chip8_execute_instruction keys rnd s =
    (let opcode = chip8_current_opcode s;
         fam = opcode AND 0xf000;
         x = op_x opcode;
         y = op_y opcode
     in
     if fam = 0x0000 then
       (if opcode AND 0x00ff = 0xe0 then
          Inr (s\<lparr>display := clear_display (display s), pc := pc s + 2\<rparr>)
        else if opcode AND 0x00ff = 0xee then
          (let sp' = sp s - 1
           in Inr (s\<lparr>sp := sp', pc := stack s (unat sp') + 2\<rparr>))
        else Inr s)
     else if fam = 0x1000 then Inr (s\<lparr>pc := opcode AND 0x0fff\<rparr>)
     else if fam = 0x2000 then
       Inr (s\<lparr>stack := (stack s)(unat (sp s) := pc s), sp := sp s + 1,
              pc := opcode AND 0x0fff\<rparr>)
     else if fam = 0x3000 then
       (if ucast (v s x) = opcode AND 0x00ff then Inr (s\<lparr>pc := pc s + 4\<rparr>)
        else Inr (s\<lparr>pc := pc s + 2\<rparr>))
     else if fam = 0x4000 then
       (if ucast (v s x) \<noteq> opcode AND 0x00ff then Inr (s\<lparr>pc := pc s + 4\<rparr>)
        else Inr (s\<lparr>pc := pc s + 2\<rparr>))
     else if fam = 0x5000 then Inl (UnimplementedOpcode opcode)
     else if fam = 0x6000 then
       Inr (s\<lparr>v := (v s)(x := ucast (opcode AND 0x00ff)), pc := pc s + 2\<rparr>)
     else if fam = 0x7000 then
       Inr (s\<lparr>v := (v s)(x := v s x + ucast (opcode AND 0x00ff)), pc := pc s + 2\<rparr>)
     else if fam = 0x8000 then
       (let lo = opcode AND 0x000f in
        if lo = 0x0 then Inr (s\<lparr>v := (v s)(x := v s y), pc := pc s + 2\<rparr>)
        else if lo = 0x1 \<or> lo = 0x2 \<or> lo = 0x3 \<or> lo = 0x4 \<or> lo = 0x5 \<or> lo = 0x6
                \<or> lo = 0x7 \<or> lo = 0xe
          then Inl (UnimplementedOpcode opcode)
        else Inr s)
     else if fam = 0x9000 then
       (if v s x \<noteq> v s y then Inr (s\<lparr>pc := pc s + 4\<rparr>)
        else Inr (s\<lparr>pc := pc s + 2\<rparr>))
     else if fam = 0xa000 then Inr (s\<lparr>I := opcode AND 0x0fff, pc := pc s + 2\<rparr>)
     else if fam = 0xb000 then Inl (UnimplementedOpcode opcode)
     else if fam = 0xc000 then
       Inr (s\<lparr>v := (v s)(x := of_nat (rnd mod 0x100) AND ucast (opcode AND 0x00ff)),
              pc := pc s + 2\<rparr>)
     else if fam = 0xd000 then
       (let s1 = chip8_sprite_draw (unat (v s x)) (unat (v s y)) (unat (opcode AND 0x000f)) s
        in Inr (s1\<lparr>pc := pc s1 + 2\<rparr>))
     else if fam = 0xe000 then
       (if opcode AND 0x00ff = 0x9e then
          (if keys (unat (v s x)) = 1 then Inr (s\<lparr>pc := pc s + 4\<rparr>)
           else Inr (s\<lparr>pc := pc s + 2\<rparr>))
        else if opcode AND 0x00ff = 0xa1 then
          (if keys (unat (v s x)) = 0 then Inr (s\<lparr>pc := pc s + 4\<rparr>)
           else Inr (s\<lparr>pc := pc s + 2\<rparr>))
        else Inr s)
     else if fam = 0xf000 then
       (let lo = opcode AND 0x00ff in
        if lo = 0x07 then Inr (s\<lparr>v := (v s)(x := delay s), pc := pc s + 2\<rparr>)
        else if lo = 0x0a then
          (case key_scan keys 0 of
             Some i \<Rightarrow> Inr (s\<lparr>v := (v s)(x := of_nat i), pc := pc s + 2\<rparr>)
           | None \<Rightarrow> Inr s)
        else if lo = 0x15 then Inr (s\<lparr>delay := v s x, pc := pc s + 2\<rparr>)
        else if lo = 0x18 then Inl (UnimplementedOpcode opcode)
        else if lo = 0x1e then Inr (s\<lparr>I := I s + ucast (v s x), pc := pc s + 2\<rparr>)
        else if lo = 0x29 then Inr (s\<lparr>I := ucast (v s x) * 5, pc := pc s + 2\<rparr>)
        else if lo = 0x33 then
          Inr (s\<lparr>ram := (ram s)(unat (I s) := v s x div 100,
                                 unat (I s) + 1 := (v s x div 10) mod 10,
                                 unat (I s) + 2 := v s x mod 10),
                 pc := pc s + 2\<rparr>)
        else if lo = 0x55 then
          Inr (s\<lparr>ram := fold (\<lambda>i m. m(unat (I s) + i := v s i)) [0..<x + 1] (ram s),
                 I := I s + (of_nat x + 1), pc := pc s + 2\<rparr>)
        else if lo = 0x65 then
          Inr (s\<lparr>v := fold (\<lambda>i r. r(i := ram s (unat (I s) + i))) [0..<x + 1] (v s),
                 I := I s + (of_nat x + 1), pc := pc s + 2\<rparr>)
        else Inr s)
     else Inr s)"

text \<open>
  The main loop: one pair of key state and random value per iteration; the run stops at
  the first failing cycle.
\<close>

fun run :: "((nat \<Rightarrow> int) \<times> nat) list \<Rightarrow> chip8 \<Rightarrow> exec_error + chip8" where
  "run [] s = Inr s"
| "run (e # es) s =
     (case chip8_execute_instruction (fst e) (snd e) s of
        Inl err \<Rightarrow> Inl err
      | Inr s' \<Rightarrow> run es s')"

section \<open>The loader\<close>

text \<open>
  \<^verbatim>\<open>chip8_init\<close>. The opened file is the list of its bytes (\<open>None\<close> when \<^verbatim>\<open>fopen\<close>
  fails), and \<^verbatim>\<open>fread(buf, 1, count, fd)\<close> hands over the next \<open>count\<close> bytes, or what is
  left of the file when that is less. Every pass of the read loop copies to
  \<^verbatim>\<open>chip8.ram + chip8.pc\<close>. The function either returns (-1 or 0) or exits; the result is
  the outcome together with the machine state at that moment.
\<close>

datatype load_result = LoadOk | FopenFailed | ImageTooLarge | ShortRead

definition fread :: "8 word list \<Rightarrow> nat \<Rightarrow> nat \<Rightarrow> 8 word list" where
  "fread file pos count = take count (drop pos file)"

definition copy_to :: "nat \<Rightarrow> 8 word list \<Rightarrow> (nat \<Rightarrow> 8 word) \<Rightarrow> nat \<Rightarrow> 8 word" where
  "copy_to base bytes mem = fold (\<lambda>k m. m(base + k := bytes ! k)) [0..<length bytes] mem"

function read_loop ::
    "8 word list \<Rightarrow> nat \<Rightarrow> nat \<Rightarrow> nat \<Rightarrow> (nat \<Rightarrow> 8 word) \<Rightarrow> nat \<Rightarrow> (nat \<Rightarrow> 8 word) \<times> nat" where
  "read_loop file fsize base pos mem ntotal =
     (if length (fread file pos fsize) > 0 then
        read_loop file fsize base (pos + length (fread file pos fsize))
          (copy_to base (fread file pos fsize) mem) (ntotal + length (fread file pos fsize))
      else (mem, ntotal))"
  by pat_completeness auto
termination
  by (relation "measure (\<lambda>(file, fsize, base, pos, mem, ntotal). length file - pos)")
     (auto simp: fread_def)

declare read_loop.simps [simp del]

definition chip8_init :: "8 word list option \<Rightarrow> chip8 \<Rightarrow> load_result \<times> chip8" where
  "chip8_init fd s =
     (case fd of
        None \<Rightarrow> (FopenFailed, s)
      | Some file \<Rightarrow>
          let s1 = chip8_zero\<lparr>pc := of_nat CHIP8_RAM_ENTRYPOINT, delay := 0, sound := 0,
                              I := 0, sp := 0\<rparr>;
              s2 = s1\<lparr>ram := fold (\<lambda>i m. m(i := chip8_numbers ! i)) [0..<0x50] (ram s1)\<rparr>;
              fsize = length file
          in if fsize > CHIP8_RAM_CAPACITY - CHIP8_RAM_ENTRYPOINT then (ImageTooLarge, s2)
             else
               let (mem, ntotal) = read_loop file fsize (unat (pc s2)) 0 (ram s2) 0;
                   s3 = s2\<lparr>ram := mem\<rparr>
               in if ntotal \<noteq> fsize then (ShortRead, s3) else (LoadOk, s3))"

text \<open>The machine as \<^verbatim>\<open>main\<close> starts it on a ROM image that could be opened.\<close>

definition boot :: "8 word list \<Rightarrow> chip8" where
  "boot rom = snd (chip8_init (Some rom) chip8_zero)"

section \<open>Definitions used in the statements\<close>

text \<open>Memory after the font table has been copied into the zeroed machine.\<close>

definition font_ram :: "nat \<Rightarrow> 8 word" where
  "font_ram a = (if a < 0x50 then chip8_numbers ! a else 0)"


text \<open>A call at 0x200 to a subroutine at 0x204 that returns at once.\<close>

definition rom_call :: "8 word list" where
  "rom_call = [0x22, 0x04, 0x00, 0x00, 0x00, 0xEE]"

text \<open>Bit \<open>j\<close> (counted from the left) of row \<open>i\<close> of the sprite at \<open>I\<close>: the test of the inner loop.\<close>

definition sprite_bit :: "chip8 \<Rightarrow> nat \<Rightarrow> nat \<Rightarrow> bool" where
  "sprite_bit s i j \<longleftrightarrow> (ucast (ram s (unat (I s) + i)) :: 32 word) AND drop_bit j 0x80 \<noteq> 0"

text \<open>
  The cells \<^verbatim>\<open>display[y+i][x+j]\<close> that the two loops of \<^verbatim>\<open>chip8_sprite_draw\<close> index, in
  loop order, as (row, column).
\<close>

definition sprite_cells :: "nat \<Rightarrow> nat \<Rightarrow> nat \<Rightarrow> chip8 \<Rightarrow> (nat \<times> nat) list" where
  "sprite_cells x y n s =
     concat (map (\<lambda>i. map (\<lambda>j. (y + i, x + j)) (filter (sprite_bit s i) [0..<8])) [0..<n])"

text \<open>Key state with every key released, and a random value, for closed examples.\<close>

definition idle :: "(nat \<Rightarrow> int) \<times> nat" where
  "idle = (\<lambda>_. 0, 0)"

text \<open>Draw the top row \<^verbatim>\<open>0xF0\<close> of the glyph at \<open>I = 0\<close> at \<open>(V0, V0) = (0, 0)\<close>, twice.\<close>

definition rom_draw_twice :: "8 word list" where
  "rom_draw_twice = [0xD0, 0x01, 0xD0, 0x01]"










text \<open>\<^verbatim>\<open>0123\<close>: family 0 with a low byte that is neither \<^verbatim>\<open>E0\<close> nor \<^verbatim>\<open>EE\<close>.\<close>

definition rom_sys :: "8 word list" where
  "rom_sys = [0x01, 0x23]"

section \<open>Auxiliary facts\<close>

subsection \<open>Bytes and 16-bit words\<close>

lemma unat_byte_less: "unat (b :: 8 word) < 256"
  using unsigned_less [of b, where ?'a = nat] by simp





subsection \<open>The key scan\<close>

lemma key_scan_None:
  "(\<And>j. i \<le> j \<Longrightarrow> j < 16 \<Longrightarrow> keys j = 0) \<Longrightarrow> key_scan keys i = None"
proof (induction keys i rule: key_scan.induct)
  case (1 keys i)
  show ?case
  proof (cases "i < 16")
    case True
    have z: "keys i = 0" using 1(2) [of i] True by simp
    have "key_scan keys (i + 1) = None"
      using 1(1) True z 1(2) by simp
    with z show ?thesis using True by (subst key_scan.simps) simp
  next
    case False
    then show ?thesis by (subst key_scan.simps) simp
  qed
qed

lemma key_scan_first:
  "i \<le> k \<Longrightarrow> k < 16 \<Longrightarrow> keys k \<noteq> 0 \<Longrightarrow> (\<And>j. i \<le> j \<Longrightarrow> j < k \<Longrightarrow> keys j = 0)
    \<Longrightarrow> key_scan keys i = Some k"
proof (induction keys i rule: key_scan.induct)
  case (1 keys i)
  show ?case
  proof (cases "i = k")
    case True
    then show ?thesis using 1(3,4) by (subst key_scan.simps) simp
  next
    case False
    then have lt: "i < k" using 1(2) by simp
    then have z: "keys i = 0" using 1(5) [of i] by simp
    have "key_scan keys (i + 1) = Some k"
      using 1(1) lt z 1(3,4,5) by simp
    then show ?thesis using lt z 1(3) by (subst key_scan.simps) simp
  qed
qed

subsection \<open>The loader's loops\<close>

lemma fold_copy_apply:
  "fold (\<lambda>k m. m(base + k := bytes ! k)) [0..<n] mem a =
     (if base \<le> a \<and> a < base + n then bytes ! (a - base) else mem a)"
  by (induction n) (auto simp: less_Suc_eq)

lemma copy_to_apply:
  "copy_to base bytes mem a =
     (if base \<le> a \<and> a < base + length bytes then bytes ! (a - base) else mem a)"
  by (simp add: copy_to_def fold_copy_apply)

lemma fold_font_apply:
  "fold (\<lambda>i m. m(i := tab ! i)) [0..<n] mem a = (if a < n then tab ! a else mem a)"
  by (induction n) (auto simp: less_Suc_eq)

lemma read_loop_whole:
  "read_loop file (length file) base 0 mem 0 = (copy_to base file mem, length file)"
proof (cases "file = []")
  case True
  then show ?thesis
    by (subst read_loop.simps) (simp add: fread_def copy_to_def)
next
  case False
  have stop: "read_loop file (length file) base (length file) m n = (m, n)" for m n
    by (subst read_loop.simps) (simp add: fread_def)
  show ?thesis
    using False by (subst read_loop.simps) (simp add: fread_def stop)
qed

lemma fold_font_ram:
  "fold (\<lambda>i m. m(i := chip8_numbers ! i)) [0..<0x50] (\<lambda>_. 0) = font_ram"
  by (rule ext) (simp add: fold_font_apply font_ram_def)

lemma chip8_init_small:
  assumes "length rom \<le> 3584"
  shows "chip8_init (Some rom) s =
           (LoadOk, chip8_zero\<lparr>pc := 0x200, ram := copy_to 0x200 rom font_ram\<rparr>)"
  using assms
  by (simp add: chip8_init_def Let_def CHIP8_RAM_CAPACITY_def CHIP8_RAM_ENTRYPOINT_def
      chip8_zero_def fold_font_ram read_loop_whole)

lemma chip8_init_large:
  assumes "length rom > 3584"
  shows "chip8_init (Some rom) s = (ImageTooLarge, chip8_zero\<lparr>pc := 0x200, ram := font_ram\<rparr>)"
  using assms
  by (simp add: chip8_init_def Let_def CHIP8_RAM_CAPACITY_def CHIP8_RAM_ENTRYPOINT_def
      chip8_zero_def fold_font_ram)

lemma boot_small:
  "length rom \<le> 3584 \<Longrightarrow>
     boot rom = chip8_zero\<lparr>pc := 0x200, ram := copy_to 0x200 rom font_ram\<rparr>"
  by (simp add: boot_def chip8_init_small)

subsection \<open>Dispatch on the instruction family\<close>


lemmas eval_simps =
  chip8_execute_instruction_def chip8_current_opcode_def Let_def op_x_def op_y_def
  copy_to_apply font_ram_def chip8_zero_def

subsection \<open>The sprite loops\<close>

lemma sprite_pixel_fields [simp]:
  "ram (sprite_pixel x y i cell j s) = ram s"
  "I (sprite_pixel x y i cell j s) = I s"
  "pc (sprite_pixel x y i cell j s) = pc s"
  "sp (sprite_pixel x y i cell j s) = sp s"
  "stack (sprite_pixel x y i cell j s) = stack s"
  by (simp_all add: sprite_pixel_def Let_def)

lemma sprite_pixel_display:
  "display (sprite_pixel x y i cell j s) r c =
     (if cell AND drop_bit j 0x80 \<noteq> 0 \<and> r = y + i \<and> c = x + j
      then (display s r c XOR cell) * 0xffffffff else display s r c)"
  by (simp add: sprite_pixel_def Let_def)

lemma sprite_pixel_v:
  "v (sprite_pixel x y i cell j s) =
     (if cell AND drop_bit j 0x80 \<noteq> 0 \<and> display s (y + i) (x + j) \<noteq> 0
      then (v s)(0xf := 1) else v s)"
  by (simp add: sprite_pixel_def Let_def)

lemma fold_keeps:
  "(\<And>a t. f (g a t) = f t) \<Longrightarrow> f (fold g xs s) = f s"
  by (induction xs arbitrary: s) simp_all

lemma pixels_display:
  "display (fold (sprite_pixel x y i cell) [0..<m] s) r c =
     (if r = y + i \<and> x \<le> c \<and> c < x + m \<and> cell AND drop_bit (c - x) 0x80 \<noteq> 0
      then (display s r c XOR cell) * 0xffffffff else display s r c)"
proof (induction m arbitrary: r c)
  case 0
  show ?case by auto
next
  case (Suc m)
  show ?case
    by (cases "c = x + m") (auto simp: sprite_pixel_display Suc)
qed

lemma pixels_v:
  "v (fold (sprite_pixel x y i cell) [0..<m] s) =
     (if \<exists>j<m. cell AND drop_bit j 0x80 \<noteq> 0 \<and> display s (y + i) (x + j) \<noteq> 0
      then (v s)(0xf := 1) else v s)"
proof (induction m)
  case 0
  show ?case by simp
next
  case (Suc m)
  have d: "display (fold (sprite_pixel x y i cell) [0..<m] s) (y + i) (x + m) =
             display s (y + i) (x + m)"
    by (simp add: pixels_display)
  show ?case
    by (auto simp: sprite_pixel_v d Suc less_Suc_eq)
qed

lemma sprite_row_fields [simp]:
  "ram (sprite_row x y i s) = ram s"
  "I (sprite_row x y i s) = I s"
  "pc (sprite_row x y i s) = pc s"
  "sp (sprite_row x y i s) = sp s"
  "stack (sprite_row x y i s) = stack s"
  by (simp_all add: sprite_row_def Let_def fold_keeps)

lemma sprite_row_display:
  "display (sprite_row x y i s) r c =
     (if r = y + i \<and> x \<le> c \<and> c < x + 8 \<and> sprite_bit s i (c - x)
      then (display s r c XOR ucast (ram s (unat (I s) + i))) * 0xffffffff
      else display s r c)"
  by (simp add: sprite_row_def Let_def pixels_display sprite_bit_def)

lemma sprite_row_v:
  "v (sprite_row x y i s) =
     (if \<exists>j<8. sprite_bit s i j \<and> display s (y + i) (x + j) \<noteq> 0
      then (v s)(0xf := 1) else v s)"
  by (simp add: sprite_row_def Let_def pixels_v sprite_bit_def)

lemma sprite_bit_cong:
  "ram t = ram s \<Longrightarrow> I t = I s \<Longrightarrow> sprite_bit t i j = sprite_bit s i j"
  by (simp add: sprite_bit_def)

lemma rows_fields [simp]:
  "ram (fold (sprite_row x y) xs s) = ram s"
  "I (fold (sprite_row x y) xs s) = I s"
  "pc (fold (sprite_row x y) xs s) = pc s"
  "sp (fold (sprite_row x y) xs s) = sp s"
  "stack (fold (sprite_row x y) xs s) = stack s"
  by (simp_all add: fold_keeps)

lemma rows_display:
  "display (fold (sprite_row x y) [0..<k] s) r c =
     (if y \<le> r \<and> r < y + k \<and> x \<le> c \<and> c < x + 8 \<and> sprite_bit s (r - y) (c - x)
      then (display s r c XOR ucast (ram s (unat (I s) + (r - y)))) * 0xffffffff
      else display s r c)"
proof (induction k arbitrary: r c)
  case 0
  show ?case by auto
next
  case (Suc k)
  have b: "sprite_bit (fold (sprite_row x y) [0..<k] s) = sprite_bit s"
    by (intro ext sprite_bit_cong) simp_all
  show ?case
    by (cases "r = y + k") (auto simp: sprite_row_display Suc b)
qed

lemma rows_v:
  "v (fold (sprite_row x y) [0..<k] s) =
     (if \<exists>i<k. \<exists>j<8. sprite_bit s i j \<and> display s (y + i) (x + j) \<noteq> 0
      then (v s)(0xf := 1) else v s)"
proof (induction k)
  case 0
  show ?case by simp
next
  case (Suc k)
  have b: "sprite_bit (fold (sprite_row x y) [0..<k] s) = sprite_bit s"
    by (intro ext sprite_bit_cong) simp_all
  have d: "display (fold (sprite_row x y) [0..<k] s) (y + k) c = display s (y + k) c" for c
    by (simp add: rows_display)
  show ?case
    by (auto simp: sprite_row_v d b Suc less_Suc_eq)
qed

lemma sprite_bit_v [simp]: "sprite_bit (s\<lparr>v := w\<rparr>) = sprite_bit s"
  by (intro ext) (simp add: sprite_bit_def)

lemma draw_fields [simp]:
  "ram (chip8_sprite_draw x y n s) = ram s"
  "I (chip8_sprite_draw x y n s) = I s"
  "pc (chip8_sprite_draw x y n s) = pc s"
  "sp (chip8_sprite_draw x y n s) = sp s"
  "stack (chip8_sprite_draw x y n s) = stack s"
  by (simp_all add: chip8_sprite_draw_def)

lemma draw_display:
  "display (chip8_sprite_draw x y n s) r c =
     (if y \<le> r \<and> r < y + n \<and> x \<le> c \<and> c < x + 8 \<and> sprite_bit s (r - y) (c - x)
      then (display s r c XOR ucast (ram s (unat (I s) + (r - y)))) * 0xffffffff
      else display s r c)"
  by (simp add: chip8_sprite_draw_def rows_display)

lemma draw_v:
  "v (chip8_sprite_draw x y n s) =
     (v s)(0xf := if \<exists>i<n. \<exists>j<8. sprite_bit s i j \<and> display s (y + i) (x + j) \<noteq> 0
                  then 1 else 0)"
  by (auto simp: chip8_sprite_draw_def rows_v)

lemma in_sprite_cells:
  "(r, c) \<in> set (sprite_cells x y n s) \<longleftrightarrow>
     y \<le> r \<and> r < y + n \<and> x \<le> c \<and> c < x + 8 \<and> sprite_bit s (r - y) (c - x)"
  by (auto simp: sprite_cells_def intro!: bexI [where x = "r - y"] image_eqI [where x = "c - x"])

subsection \<open>Drawing twice\<close>

lemma unat_ucast_cell: "unat (ucast (b :: 8 word) :: 32 word) = unat b"
  using unat_byte_less [of b] by (simp add: unsigned_ucast_eq take_bit_eq_mod)

lemma xor_zero_eq: "(a :: 32 word) XOR b = 0 \<Longrightarrow> a = b"
proof -
  assume h: "a XOR b = 0"
  have "a = (a XOR b) XOR b" by (simp add: xor.assoc)
  then show ?thesis using h by simp
qed

lemma neg_cell_neq:
  fixes w :: "32 word"
  assumes "w \<noteq> 0" and "unat w < 256"
  shows "- w \<noteq> w"
proof
  assume "- w = w"
  then have "w + w = 0" by (metis add.right_inverse)
  then have "unat (w + w) = 0" by simp
  moreover have "unat (w + w) = unat w + unat w"
    using assms(2) by (simp add: unat_word_ariths)
  ultimately have "unat w = 0" by simp
  then show False using assms(1) by (simp add: unat_eq_0)
qed

lemma toggle_twice_nonzero:
  fixes w :: "32 word"
  assumes "w \<noteq> 0" and "unat w < 256"
  shows "((0 XOR w) * 0xffffffff XOR w) * 0xffffffff \<noteq> 0"
proof -
  have m: "(0xffffffff :: 32 word) = - 1" by simp
  have "- w XOR w \<noteq> 0"
    using neg_cell_neq [OF assms] xor_zero_eq by blast
  then show ?thesis unfolding m by simp
qed

lemma draw_twice_never_clears:
  assumes "\<And>r c. display s r c = 0" and "(r, c) \<in> set (sprite_cells x y n s)"
  shows "display (chip8_sprite_draw x y n (chip8_sprite_draw x y n s)) r c \<noteq> 0"
proof -
  define w :: "32 word" where "w = ucast (ram s (unat (I s) + (r - y)))"
  have cell: "y \<le> r \<and> r < y + n \<and> x \<le> c \<and> c < x + 8" and bit: "sprite_bit s (r - y) (c - x)"
    using assms(2) by (simp_all add: in_sprite_cells)
  have "w AND drop_bit (c - x) 0x80 \<noteq> 0"
    using bit by (simp add: sprite_bit_def w_def)
  then have nz: "w \<noteq> 0" by auto
  have lt: "unat w < 256"
    by (simp add: w_def unat_ucast_cell unat_byte_less)
  have b2: "sprite_bit (chip8_sprite_draw x y n s) = sprite_bit s"
    by (intro ext sprite_bit_cong) simp_all
  have "display (chip8_sprite_draw x y n (chip8_sprite_draw x y n s)) r c =
          ((0 XOR w) * 0xffffffff XOR w) * 0xffffffff"
    using cell bit by (simp add: draw_display b2 assms(1) w_def)
  then show ?thesis
    using toggle_twice_nonzero [OF nz lt] by simp
qed

subsection \<open>Invariants of a cycle and of a run\<close>






section \<open>Sprite drawing (C1, C5)\<close>

text \<open>
  C1 fails on the code. The ROM \<^verbatim>\<open>D001 D001\<close> draws the sprite row \<^verbatim>\<open>0xF0\<close> at (0, 0) twice
  on the empty display of the freshly loaded machine. \<^verbatim>\<open>pixel ^= cell\<close> xors the cell with
  the whole sprite byte and the product with \<^verbatim>\<open>0xffffffff\<close> negates it: the first draw
  leaves \<^verbatim>\<open>0xFFFFFF10\<close> in cell (0, 0), the second leaves \<^verbatim>\<open>0x20\<close>, which is not off.
  The second draw does set \<open>VF = 1\<close>. By \<open>draw_twice_never_clears\<close> the same happens for
  every sprite on an empty display: no cell that the sprite touches is off after the
  second draw.
\<close>

theorem draw_twice_not_cleared:
  "map_sum id (\<lambda>s. (display s 0 0, v s 0xf)) (run [idle] (boot rom_draw_twice)) =
     Inr (0xFFFFFF10, 0) \<and>
   map_sum id (\<lambda>s. (display s 0 0, v s 0xf)) (run [idle, idle] (boot rom_draw_twice)) =
     Inr (0x20, 1)"
proof -
  define s0 where "s0 = boot rom_draw_twice"
  define s1 where "s1 = (chip8_sprite_draw 0 0 1 s0)\<lparr>pc := 0x202\<rparr>"
  define s2 where "s2 = (chip8_sprite_draw 0 0 1 s1)\<lparr>pc := 0x204\<rparr>"
  have b: "s0 = chip8_zero\<lparr>pc := 0x200, ram := copy_to 0x200 rom_draw_twice font_ram\<rparr>"
    by (simp add: s0_def boot_small rom_draw_twice_def)
  have st1: "chip8_execute_instruction (\<lambda>_. 0) 0 s0 = Inr s1"
    by (simp add: s1_def b rom_draw_twice_def eval_simps)
  have st2: "chip8_execute_instruction (\<lambda>_. 0) 0 s1 = Inr s2"
    by (simp add: s2_def s1_def draw_v b rom_draw_twice_def eval_simps)
  have bit0: "sprite_bit s0 0 0" "sprite_bit s1 0 0"
    by (simp_all add: sprite_bit_def s1_def b copy_to_apply font_ram_def chip8_numbers_def chip8_zero_def)
  have d0: "display s0 r c = 0" for r c
    by (simp add: b chip8_zero_def)
  have d1: "display s1 0 0 = 0xFFFFFF10"
    using bit0 by (simp add: s1_def draw_display d0) (simp add: b copy_to_apply font_ram_def chip8_numbers_def chip8_zero_def)
  have v1: "v s1 0xf = 0"
    by (simp add: s1_def draw_v d0)
  have d2: "display s2 0 0 = 0x20"
    using bit0 by (simp add: s2_def draw_display d1) (simp add: s1_def b copy_to_apply font_ram_def chip8_numbers_def chip8_zero_def)
  have "\<exists>i<1. \<exists>j<8. sprite_bit s1 i j \<and> display s1 (0 + i) (0 + j) \<noteq> 0"
  proof (intro exI [of _ 0] conjI)
    show "sprite_bit s1 0 0" by (rule bit0)
    show "display s1 (0 + 0) (0 + 0) \<noteq> 0" using d1 by simp
  qed simp_all
  then have v2: "v s2 0xf = 1"
    by (simp add: s2_def draw_v)
  show ?thesis
    unfolding s0_def [symmetric] using st1 st2 d1 v1 d2 v2 by (simp add: idle_def)
qed




section \<open>The range of the program counter (C2)\<close>




section \<open>Fetch (C3)\<close>




section \<open>Opcodes without a case label (C4)\<close>

text \<open>
  C4 fails on the code. Only the stubbed cases call \<^verbatim>\<open>unimplemented_instruction\<close>. The
  inner switches of the families 0, 8, E and F have no default label, so an opcode of
  these families whose sub-opcode matches no label is not reported: the cycle returns
  normally with the machine state unchanged, \<open>pc\<close> included.
\<close>

theorem unlisted_opcode_ignored:
  assumes "opc = chip8_current_opcode s"
      and "(opc AND 0xf000 = 0x0000 \<and> opc AND 0x00ff \<notin> {0xe0, 0xee}) \<or>
           (opc AND 0xf000 = 0x8000 \<and> opc AND 0x000f \<notin> {0, 1, 2, 3, 4, 5, 6, 7, 0xe}) \<or>
           (opc AND 0xf000 = 0xe000 \<and> opc AND 0x00ff \<notin> {0x9e, 0xa1}) \<or>
           (opc AND 0xf000 = 0xf000 \<and>
              opc AND 0x00ff \<notin> {0x07, 0x0a, 0x15, 0x18, 0x1e, 0x29, 0x33, 0x55, 0x65})"
  shows "chip8_execute_instruction keys rnd s = Inr s"
  using assms(2) unfolding assms(1)
  by (elim disjE conjE) (simp_all add: chip8_execute_instruction_def Let_def)

theorem unlisted_opcode_ignored_witness:
  "chip8_current_opcode (boot rom_sys) = 0x0123 \<and>
   chip8_execute_instruction (\<lambda>_. 0) 0 (boot rom_sys) = Inr (boot rom_sys)"
proof -
  have op: "chip8_current_opcode (boot rom_sys) = 0x0123"
    by (simp add: boot_small rom_sys_def eval_simps)
  show ?thesis
    using unlisted_opcode_ignored [of "0x0123" "boot rom_sys" "\<lambda>_. 0" 0]
    by (simp add: op)
qed

section \<open>The stack pointer (C6)\<close>




section \<open>Call and return (C7)\<close>

text \<open>
  C7. Let \<open>s\<close> be a state with \<open>sp < 16\<close> whose instruction is a call \<^verbatim>\<open>2nnn\<close>, and
  \<open>s1\<close> the state after it. Let \<open>s2\<close> be any later state (the subroutine body may be
  anything) in which the stack pointer is that of \<open>s1\<close>, the pushed frame
  \<open>stack[sp s]\<close> is what the call stored, and the instruction is a return \<^verbatim>\<open>00EE\<close>.
  Then the return succeeds, sets \<open>pc\<close> to the call-site \<open>pc + 2\<close> (16-bit addition; the
  number \<open>pc + 2\<close> itself whenever the call instruction lies inside the 4096-byte
  memory) and leaves \<open>sp\<close> as it was before the call.
\<close>

theorem call_return_roundtrip:
  assumes "chip8_current_opcode s AND 0xf000 = 0x2000"
      and "unat (sp s) < 16"
      and "chip8_execute_instruction keys rnd s = Inr s1"
      and "sp s2 = sp s1"
      and "stack s2 (unat (sp s)) = stack s1 (unat (sp s))"
      and "chip8_current_opcode s2 AND 0xf000 = 0x0000"
      and "chip8_current_opcode s2 AND 0x00ff = 0xee"
  shows "\<exists>s3. chip8_execute_instruction keys' rnd' s2 = Inr s3 \<and>
              pc s3 = pc s + 2 \<and> sp s3 = sp s \<and>
              (unat (pc s) + 1 < 4096 \<longrightarrow> unat (pc s3) = unat (pc s) + 2)"
proof -
  have s1: "s1 = s\<lparr>stack := (stack s)(unat (sp s) := pc s), sp := sp s + 1,
                   pc := chip8_current_opcode s AND 0x0fff\<rparr>"
    using assms(1,3) by (simp add: chip8_execute_instruction_def Let_def)
  have sp2: "sp s2 - 1 = sp s" using assms(4) s1 by simp
  have fr: "stack s2 (unat (sp s)) = pc s" using assms(5) s1 by simp
  have ret: "chip8_execute_instruction keys' rnd' s2 =
               Inr (s2\<lparr>sp := sp s, pc := pc s + 2\<rparr>)"
    using assms(6,7) by (simp add: chip8_execute_instruction_def Let_def sp2 fr)
  have "unat (pc s + 2) = unat (pc s) + 2" if "unat (pc s) + 1 < 4096"
    using that by (simp add: unat_word_ariths)
  with ret show ?thesis by simp
qed

theorem call_return_roundtrip_witness:
  "chip8_current_opcode (boot rom_call) = 0x2204 \<and> unat (sp (boot rom_call)) = 0 \<and>
   (\<exists>s1 s3. chip8_execute_instruction (\<lambda>_. 0) 0 (boot rom_call) = Inr s1 \<and>
      chip8_current_opcode s1 = 0x00EE \<and>
      chip8_execute_instruction (\<lambda>_. 0) 0 s1 = Inr s3 \<and> pc s3 = 0x202 \<and> sp s3 = 0)"
proof -
  define s where "s = boot rom_call"
  define s1 where "s1 = s\<lparr>stack := (stack s)(0 := 0x200), sp := 1, pc := 0x204\<rparr>"
  have b: "s = chip8_zero\<lparr>pc := 0x200, ram := copy_to 0x200 rom_call font_ram\<rparr>"
    by (simp add: s_def boot_small rom_call_def)
  have op: "chip8_current_opcode s = 0x2204"
    by (simp add: b rom_call_def eval_simps)
  have st: "chip8_execute_instruction (\<lambda>_. 0) 0 s = Inr s1"
    by (simp add: s1_def b rom_call_def eval_simps)
  have op1: "chip8_current_opcode s1 = 0x00EE"
    by (simp add: s1_def b rom_call_def eval_simps)
  have "\<exists>s3. chip8_execute_instruction (\<lambda>_. 0) 0 s1 = Inr s3 \<and> pc s3 = pc s + 2 \<and> sp s3 = sp s
          \<and> (unat (pc s) + 1 < 4096 \<longrightarrow> unat (pc s3) = unat (pc s) + 2)"
    using call_return_roundtrip [of s "\<lambda>_. 0" 0 s1 s1 "\<lambda>_. 0" 0] st
    by (simp add: op op1) (simp add: b chip8_zero_def)
  then obtain s3 where "chip8_execute_instruction (\<lambda>_. 0) 0 s1 = Inr s3" "pc s3 = 0x202" "sp s3 = 0"
    by (auto simp: b chip8_zero_def)
  with st op op1 show ?thesis
    unfolding s_def [symmetric] by (auto simp: b chip8_zero_def)
qed

section \<open>Waiting for a key (C8, C10)\<close>

text \<open>
  C8. Executing \<^verbatim>\<open>Fx0A\<close> with all 16 keys released returns the state as it was (so
  \<open>pc\<close>, the registers and everything else are unchanged); with key 5 and only key 5
  pressed it sets \<open>V[x]\<close> to 5, advances \<open>pc\<close> by 2 and changes nothing else.
\<close>

theorem fx0a_wait:
  assumes "chip8_current_opcode s AND 0xf000 = 0xf000"
      and "chip8_current_opcode s AND 0x00ff = 0x0a"
  shows "((\<forall>i<16. keys i = 0) \<longrightarrow> chip8_execute_instruction keys rnd s = Inr s) \<and>
         (keys 5 \<noteq> 0 \<and> (\<forall>i<16. i \<noteq> 5 \<longrightarrow> keys i = 0) \<longrightarrow>
            chip8_execute_instruction keys rnd s =
              Inr (s\<lparr>v := (v s)(op_x (chip8_current_opcode s) := 5), pc := pc s + 2\<rparr>))"
proof (intro conjI impI)
  assume "\<forall>i<16. keys i = 0"
  then have "key_scan keys 0 = None" by (intro key_scan_None) simp
  then show "chip8_execute_instruction keys rnd s = Inr s"
    using assms by (simp add: chip8_execute_instruction_def Let_def)
next
  assume "keys 5 \<noteq> 0 \<and> (\<forall>i<16. i \<noteq> 5 \<longrightarrow> keys i = 0)"
  then have "key_scan keys 0 = Some 5" by (intro key_scan_first) auto
  then show "chip8_execute_instruction keys rnd s =
              Inr (s\<lparr>v := (v s)(op_x (chip8_current_opcode s) := 5), pc := pc s + 2\<rparr>)"
    using assms by (simp add: chip8_execute_instruction_def Let_def)
qed

text \<open>The ROM \<^verbatim>\<open>F30A\<close>: wait for a key into \<open>V3\<close>.\<close>

theorem fx0a_wait_witness:
  "chip8_execute_instruction (\<lambda>_. 0) 0 (boot [0xF3, 0x0A]) = Inr (boot [0xF3, 0x0A]) \<and>
   chip8_execute_instruction (\<lambda>i. if i = 5 then 1 else 0) 0 (boot [0xF3, 0x0A]) =
     Inr ((boot [0xF3, 0x0A])\<lparr>v := (v (boot [0xF3, 0x0A]))(3 := 5), pc := 0x202\<rparr>)"
proof -
  have op: "chip8_current_opcode (boot [0xF3, 0x0A]) = 0xF30A"
    by (simp add: boot_small eval_simps)
  have p: "pc (boot [0xF3, 0x0A]) = 0x200" by (simp add: boot_small)
  show ?thesis
    using fx0a_wait [of "boot [0xF3, 0x0A]" "\<lambda>_. 0" 0]
      fx0a_wait [of "boot [0xF3, 0x0A]" "\<lambda>i. if i = 5 then 1 else 0" 0]
    by (simp add: op p op_x_def)
qed

text \<open>
  C10. When \<^verbatim>\<open>Fx0A\<close> executes and \<open>k\<close> is the smallest index below 16 of a pressed key
  (\<open>keys k\<close> is non-zero and every key below \<open>k\<close> is released), \<open>V[x]\<close> becomes \<open>k\<close> and
  \<open>pc\<close> advances by 2, whatever the keys above \<open>k\<close> are.
\<close>

theorem fx0a_smallest_key:
  assumes "chip8_current_opcode s AND 0xf000 = 0xf000"
      and "chip8_current_opcode s AND 0x00ff = 0x0a"
      and "k < 16" and "keys k \<noteq> 0" and "\<forall>j<k. keys j = 0"
  shows "chip8_execute_instruction keys rnd s =
           Inr (s\<lparr>v := (v s)(op_x (chip8_current_opcode s) := of_nat k), pc := pc s + 2\<rparr>)"
proof -
  have "key_scan keys 0 = Some k" using assms(3,4,5) by (intro key_scan_first) auto
  then show ?thesis
    using assms(1,2) by (simp add: chip8_execute_instruction_def Let_def)
qed

text \<open>Keys 7, 9 and 12 pressed: the register receives 7.\<close>

theorem fx0a_smallest_key_witness:
  "chip8_execute_instruction (\<lambda>i. if i \<in> {7, 9, 12} then 1 else 0) 0 (boot [0xF3, 0x0A]) =
     Inr ((boot [0xF3, 0x0A])\<lparr>v := (v (boot [0xF3, 0x0A]))(3 := 7), pc := 0x202\<rparr>)"
proof -
  have op: "chip8_current_opcode (boot [0xF3, 0x0A]) = 0xF30A"
    by (simp add: boot_small eval_simps)
  have p: "pc (boot [0xF3, 0x0A]) = 0x200" by (simp add: boot_small)
  show ?thesis
    using fx0a_smallest_key [of "boot [0xF3, 0x0A]" 7 "\<lambda>i. if i \<in> {7, 9, 12} then 1 else 0" 0]
    by (simp add: op p op_x_def)
qed

section \<open>The size check of the loader (C9)\<close>

text \<open>
  C9. A ROM of exactly 3584 bytes is accepted and one of 3585 bytes is rejected as too
  large. Whenever a ROM is rejected as too large, the machine is left as the zeroed
  state with the font table and \<open>pc = 0x200\<close>: the check comes before the copy, and no
  byte of the ROM is in memory.
\<close>

theorem loader_size_check:
  "(length rom = 3584 \<longrightarrow>
      fst (chip8_init (Some rom) s) = LoadOk \<and>
      (\<forall>k<3584. ram (snd (chip8_init (Some rom) s)) (0x200 + k) = rom ! k)) \<and>
   (length rom = 3585 \<longrightarrow> fst (chip8_init (Some rom) s) = ImageTooLarge) \<and>
   (fst (chip8_init (Some rom) s) = ImageTooLarge \<longrightarrow>
      snd (chip8_init (Some rom) s) = chip8_zero\<lparr>pc := 0x200, ram := font_ram\<rparr>)"
proof (cases "length rom \<le> 3584")
  case True
  then show ?thesis by (simp add: chip8_init_small copy_to_apply)
next
  case False
  then have "length rom > 3584" by simp
  then show ?thesis by (simp add: chip8_init_large)
qed

theorem loader_size_check_witness:
  "fst (chip8_init (Some (replicate 3584 0xAB)) chip8_zero) = LoadOk \<and>
   ram (snd (chip8_init (Some (replicate 3584 0xAB)) chip8_zero)) (0x200 + 3583) = 0xAB \<and>
   fst (chip8_init (Some (replicate 3585 0xAB)) chip8_zero) = ImageTooLarge \<and>
   ram (snd (chip8_init (Some (replicate 3585 0xAB)) chip8_zero)) 0x200 = 0"
proof -
  note ok = loader_size_check [of "replicate 3584 0xAB" chip8_zero]
  note bad = loader_size_check [of "replicate 3585 0xAB" chip8_zero]
  have 1: "fst (chip8_init (Some (replicate 3584 0xAB)) chip8_zero) = LoadOk"
    using ok by simp
  have "\<forall>k<3584. ram (snd (chip8_init (Some (replicate 3584 0xAB)) chip8_zero)) (0x200 + k) =
          replicate 3584 0xAB ! k"
    using ok by simp
  then have 2: "ram (snd (chip8_init (Some (replicate 3584 0xAB)) chip8_zero)) (0x200 + 3583) =
          replicate 3584 0xAB ! 3583"
    by (elim allE [where x = 3583]) simp
  have 3: "fst (chip8_init (Some (replicate 3585 0xAB)) chip8_zero) = ImageTooLarge"
    using bad by simp
  have 4: "ram (snd (chip8_init (Some (replicate 3585 0xAB)) chip8_zero)) 0x200 = 0"
    using bad by (simp add: font_ram_def)
  from 1 2 3 4 show ?thesis by simp
qed

end
